theory Spec2Isabelle
  imports Main "HOL-Library.AList"
begin

section \<open>Shapes: \<open>dots_set.py\<close>\<close>

text \<open>
  A dot is a pair (row, column) of Python integers.  A Python \<open>set\<close> or \<open>frozenset\<close> of
  dots that is only compared, united or tested for membership is a HOL set; a collection
  the source iterates over is a list, whose order stands for the iteration order.
\<close>

type_synonym dot = "int \<times> int"

text \<open>\<open>Config = namedtuple('Config', ['flips', 'rotations', 'location'])\<close>\<close>

record Config =
  flips :: int
  rotations :: int
  location :: dot

datatype error =
    TypeError
  | ValueError
  | KeyError
  | RecursionError
  | StateException
  | NoSolutionException
  | IllegalReleaseException

text \<open>
  The attributes of a \<open>DotsSet\<close> object, without the leading underscore of the source.
  \<open>_hash\<close> is a function of \<open>_initial_dots_set\<close> and is left out.
\<close>

record DotsSet =
  initial_dots_set :: "dot set"
  dots_set :: "dot set"
  height :: int
  width :: int
  color :: string
  config :: Config
  initial_config :: Config

definition are_valid_dots :: "dot list \<Rightarrow> bool" where
  "are_valid_dots dots = list_all (\<lambda>(y, x). y \<ge> 0 \<and> x \<ge> 0) dots"

definition flipped_vertically :: "DotsSet \<Rightarrow> dot set \<Rightarrow> dot set" where
  "flipped_vertically S dots = (\<lambda>(y, x). (height S - 1 - y, x)) ` dots"

definition rotated_90_degrees_clockwise :: "DotsSet \<Rightarrow> dot set \<Rightarrow> dot set" where
  "rotated_90_degrees_clockwise S dots = (\<lambda>(y, x). (x, height S - 1 - y)) ` dots"

definition rotated_180_degrees :: "DotsSet \<Rightarrow> dot set \<Rightarrow> dot set" where
  "rotated_180_degrees S dots = (\<lambda>(y, x). (height S - 1 - y, width S - 1 - x)) ` dots"

definition rotated_90_degrees_counterclockwise :: "DotsSet \<Rightarrow> dot set \<Rightarrow> dot set" where
  "rotated_90_degrees_counterclockwise S dots = (\<lambda>(y, x). (width S - 1 - x, y)) ` dots"

definition initial_dots_flipped :: "DotsSet \<Rightarrow> int \<Rightarrow> dot set" where
  "initial_dots_flipped S n_times =
     (if n_times mod 2 \<noteq> 0 then flipped_vertically S (initial_dots_set S)
      else initial_dots_set S)"

text \<open>
  The source ends the chain with \<open>elif times % 4 == 3\<close>; Python's \<open>%\<close> with divisor 4
  yields 0, 1, 2 or 3 for every integer, so that branch is the last case.
\<close>

definition rotated_clockwise :: "DotsSet \<Rightarrow> dot set \<Rightarrow> int \<Rightarrow> dot set" where
  "rotated_clockwise S dots n_times =
     (if n_times mod 4 = 0 then dots
      else if n_times mod 4 = 1 then rotated_90_degrees_clockwise S dots
      else if n_times mod 4 = 2 then rotated_180_degrees S dots
      else rotated_90_degrees_counterclockwise S dots)"

definition moved :: "dot set \<Rightarrow> dot \<Rightarrow> dot set" where
  "moved dots displacement =
     (case displacement of (dy, dx) \<Rightarrow> (\<lambda>(y, x). (y + dy, x + dx)) ` dots)"

definition configured :: "DotsSet \<Rightarrow> Config \<Rightarrow> dot set" where
  "configured S c =
     (let flipped_dots = initial_dots_flipped S (flips c);
          rotated_dots = rotated_clockwise S flipped_dots (rotations c);
          moved_dots = moved rotated_dots (location c)
      in moved_dots)"

text \<open>The \<open>config\<close> setter, the only method that moves the shape.\<close>

definition set_config :: "DotsSet \<Rightarrow> Config \<Rightarrow> DotsSet" where
  "set_config S c =
     (let c' = c\<lparr>flips := flips c mod 2, rotations := rotations c mod 4\<rparr>
      in S\<lparr>config := c', dots_set := configured S c'\<rparr>)"

definition reset :: "DotsSet \<Rightarrow> DotsSet" where
  "reset S = set_config S (initial_config S)"

text \<open>
  \<open>DotsSet.__init__\<close>: \<open>TypeError\<close> for a dot with a negative coordinate, and the
  \<open>ValueError\<close> of \<open>max\<close> on an empty sequence when there is no dot at all.
\<close>

definition DotsSet_init :: "dot list \<Rightarrow> Config \<Rightarrow> string \<Rightarrow> error + DotsSet" where
  "DotsSet_init dots initial_cfg col =
     (if \<not> are_valid_dots dots then Inl TypeError
      else if dots = [] then Inl ValueError
      else Inr (reset
        \<lparr>initial_dots_set = set dots, dots_set = set dots,
         height = Max (fst ` set dots) + 1, width = Max (snd ` set dots) + 1,
         color = col,
         config = \<lparr>flips = 0, rotations = 0, location = (0, 0)\<rparr>,
         initial_config = initial_cfg\<rparr>))"

text \<open>
  \<open>get_unique_configs_at\<close>.  The loop runs over \<open>flip in range(2)\<close>,
  \<open>rotation in range(4)\<close> and keeps a config when its cells are not among the cell-sets
  seen so far.  The source stores the result in the attribute \<open>unique_configs\<close> on first
  use; it is computed from \<open>_initial_dots_set\<close>, \<open>_height\<close> and \<open>_width\<close> alone,
  which never change after construction, so the model recomputes it.  The source keeps
  the configs in a Python set; the list of the model stands for its iteration order.
\<close>

fun unique_configs_loop ::
  "DotsSet \<Rightarrow> (int \<times> int) list \<Rightarrow> dot set list \<Rightarrow> Config list \<Rightarrow> Config list" where
  "unique_configs_loop S [] dots_sets acc = acc"
| "unique_configs_loop S ((flip, rotation) # rest) dots_sets acc =
     (let cfg = \<lparr>flips = flip, rotations = rotation, location = (0, 0)\<rparr>;
          ds = configured S cfg
      in if ds \<notin> set dots_sets
         then unique_configs_loop S rest (dots_sets @ [ds]) (acc @ [cfg])
         else unique_configs_loop S rest dots_sets acc)"

definition flip_rotation_range :: "(int \<times> int) list" where
  "flip_rotation_range = [(0, 0), (0, 1), (0, 2), (0, 3), (1, 0), (1, 1), (1, 2), (1, 3)]"

definition unique_configs :: "DotsSet \<Rightarrow> Config list" where
  "unique_configs S = unique_configs_loop S flip_rotation_range [] []"

definition get_unique_configs_at :: "DotsSet \<Rightarrow> dot \<Rightarrow> Config list" where
  "get_unique_configs_at S loc = map (\<lambda>cfg. cfg\<lparr>location := loc\<rparr>) (unique_configs S)"

text \<open>
  \<open>set_dots\<close>: the location is the minimum row and the minimum column of the input
  (\<open>min\<close> raises \<open>ValueError\<close> on an empty input); the first unique config at that
  location whose cells equal the input is made the current config, and \<open>ValueError\<close>
  is raised when there is none.
\<close>

definition set_dots :: "DotsSet \<Rightarrow> dot set \<Rightarrow> error + DotsSet" where
  "set_dots S dots =
     (if dots = {} then Inl ValueError
      else let loc = (Min (fst ` dots), Min (snd ` dots))
           in case find (\<lambda>cfg. configured S cfg = dots) (get_unique_configs_at S loc) of
                Some cfg \<Rightarrow> Inr (set_config S cfg)
              | None \<Rightarrow> Inl ValueError)"

section \<open>Auxiliary predicates\<close>

text \<open>
  Two predicates used in the proofs about \<open>set_dots\<close>.  A cell-set \<open>fits\<close> a shape when
  it lies in the box of the shape's height and width and touches all four sides of it;
  it is \<open>anchored\<close> when its cells have non-negative coordinates and it has a cell in
  row 0 and a cell in column 0.
\<close>

definition fits :: "DotsSet \<Rightarrow> dot set \<Rightarrow> bool" where
  "fits S Q = (finite Q \<and> (\<forall>(y, x) \<in> Q. 0 \<le> y \<and> y \<le> height S - 1 \<and> 0 \<le> x \<and> x \<le> width S - 1)
     \<and> (\<exists>x. (0, x) \<in> Q) \<and> (\<exists>x. (height S - 1, x) \<in> Q)
     \<and> (\<exists>y. (y, 0) \<in> Q) \<and> (\<exists>y. (y, width S - 1) \<in> Q))"

definition anchored :: "dot set \<Rightarrow> bool" where
  "anchored Q = (finite Q \<and> (\<forall>(y, x) \<in> Q. 0 \<le> y \<and> 0 \<le> x) \<and> (\<exists>x. (0, x) \<in> Q) \<and> (\<exists>y. (y, 0) \<in> Q))"

section \<open>Cell count of a placement\<close>

lemma inj_flip: "inj (\<lambda>(y :: int, x :: int). (h - 1 - y, x))"
  by (auto simp: inj_on_def)

lemma inj_rot90: "inj (\<lambda>(y :: int, x :: int). (x, h - 1 - y))"
  by (auto simp: inj_on_def)

lemma inj_rot180: "inj (\<lambda>(y :: int, x :: int). (h - 1 - y, w - 1 - x))"
  by (auto simp: inj_on_def)

lemma inj_rot270: "inj (\<lambda>(y :: int, x :: int). (w - 1 - x, y))"
  by (auto simp: inj_on_def)

lemma inj_move: "inj (\<lambda>(y :: int, x :: int). (y + dy, x + dx))"
  by (auto simp: inj_on_def)

lemma card_image_inj: "inj f \<Longrightarrow> card (f ` A) = card A"
  by (rule card_image) (rule inj_on_subset [where A = UNIV], simp_all)

lemma card_initial_dots_flipped:
  "card (initial_dots_flipped S t) = card (initial_dots_set S)"
  by (simp add: initial_dots_flipped_def flipped_vertically_def card_image_inj [OF inj_flip])

lemma card_rotated_clockwise: "card (rotated_clockwise S dots t) = card dots"
  by (simp add: rotated_clockwise_def rotated_90_degrees_clockwise_def rotated_180_degrees_def
      rotated_90_degrees_counterclockwise_def card_image_inj [OF inj_rot90]
      card_image_inj [OF inj_rot180] card_image_inj [OF inj_rot270])

lemma card_moved: "card (moved dots d) = card dots"
  by (cases d) (simp add: moved_def card_image_inj [OF inj_move])

text \<open>
  C7.  For every shape and every placement, with any integer flip count, rotation count
  and translation, \<open>configured\<close> returns as many cells as the initial pattern has.
\<close>

theorem configured_card: "card (configured S c) = card (initial_dots_set S)"
  by (simp add: configured_def card_moved card_rotated_clockwise card_initial_dots_flipped)

section \<open>Reverse mapping of a cell-set to a placement\<close>


lemma fits_flipped: "fits S Q \<Longrightarrow> fits S (flipped_vertically S Q)"
  unfolding fits_def flipped_vertically_def
  apply (intro conjI)
       apply simp
      apply fastforce
     apply (metis (mono_tags, lifting) diff_self image_eqI case_prod_conv)
    apply (metis (mono_tags, lifting) diff_zero image_eqI case_prod_conv)
   apply (metis (mono_tags, lifting) image_eqI case_prod_conv)
  apply (metis (mono_tags, lifting) image_eqI case_prod_conv)
  done

lemma Min_fst_zero:
  assumes "finite Q" "\<forall>(y, x) \<in> Q. 0 \<le> y" "\<exists>x. (0, x) \<in> Q"
  shows "Min (fst ` Q) = 0"
proof (rule Min_eqI)
  show "finite (fst ` Q)" using assms by simp
  show "\<And>y. y \<in> fst ` Q \<Longrightarrow> 0 \<le> y" using assms(2) by auto
  show "0 \<in> fst ` Q" using assms(3) by force
qed

lemma Min_snd_zero:
  assumes "finite Q" "\<forall>(y, x) \<in> Q. 0 \<le> x" "\<exists>y. (y, 0) \<in> Q"
  shows "Min (snd ` Q) = 0"
proof (rule Min_eqI)
  show "finite (snd ` Q)" using assms by simp
  show "\<And>y. y \<in> snd ` Q \<Longrightarrow> 0 \<le> y" using assms(2) by auto
  show "0 \<in> snd ` Q" using assms(3) by force
qed

lemma anchored_rot90: "fits S Q \<Longrightarrow> anchored (rotated_90_degrees_clockwise S Q)"
  unfolding fits_def anchored_def rotated_90_degrees_clockwise_def
  apply (intro conjI)
     apply simp
    apply fastforce
   apply (metis (mono_tags, lifting) image_eqI case_prod_conv)
  apply (metis (mono_tags, lifting) diff_self image_eqI case_prod_conv)
  done

lemma anchored_rot180: "fits S Q \<Longrightarrow> anchored (rotated_180_degrees S Q)"
  unfolding fits_def anchored_def rotated_180_degrees_def
  apply (intro conjI)
     apply simp
    apply fastforce
   apply (metis (mono_tags, lifting) diff_self image_eqI case_prod_conv)
  apply (metis (mono_tags, lifting) diff_self image_eqI case_prod_conv)
  done

lemma anchored_rot270: "fits S Q \<Longrightarrow> anchored (rotated_90_degrees_counterclockwise S Q)"
  unfolding fits_def anchored_def rotated_90_degrees_counterclockwise_def
  apply (intro conjI)
     apply simp
    apply fastforce
   apply (metis (mono_tags, lifting) diff_self image_eqI case_prod_conv)
  apply (metis (mono_tags, lifting) image_eqI case_prod_conv)
  done

lemma anchored_id: "fits S Q \<Longrightarrow> anchored Q"
  unfolding fits_def anchored_def by fastforce

lemma anchored_rotated: "fits S Q \<Longrightarrow> anchored (rotated_clockwise S Q r)"
  by (simp add: rotated_clockwise_def anchored_rot90 anchored_rot180 anchored_rot270 anchored_id)

lemma anchored_moved_Min:
  assumes "anchored Q"
  shows "Min (fst ` moved Q (dy, dx)) = dy \<and> Min (snd ` moved Q (dy, dx)) = dx \<and> moved Q (dy, dx) \<noteq> {}"
proof (intro conjI)
  from assms have fin: "finite Q" and nn: "\<forall>(y, x) \<in> Q. 0 \<le> y \<and> 0 \<le> x"
    and r0: "\<exists>x. (0, x) \<in> Q" and c0: "\<exists>y. (y, 0) \<in> Q"
    by (auto simp: anchored_def)
  show "Min (fst ` moved Q (dy, dx)) = dy"
  proof (rule Min_eqI)
    show "finite (fst ` moved Q (dy, dx))" using fin by (simp add: moved_def)
    show "\<And>y. y \<in> fst ` moved Q (dy, dx) \<Longrightarrow> dy \<le> y" using nn by (auto simp: moved_def)
    from r0 obtain x where "(0, x) \<in> Q" by blast
    then have "(dy, x + dx) \<in> moved Q (dy, dx)" by (force simp: moved_def)
    then show "dy \<in> fst ` moved Q (dy, dx)" by force
  qed
  show "Min (snd ` moved Q (dy, dx)) = dx"
  proof (rule Min_eqI)
    show "finite (snd ` moved Q (dy, dx))" using fin by (simp add: moved_def)
    show "\<And>y. y \<in> snd ` moved Q (dy, dx) \<Longrightarrow> dx \<le> y" using nn by (auto simp: moved_def)
    from c0 obtain y where "(y, 0) \<in> Q" by blast
    then have "(y + dy, dx) \<in> moved Q (dy, dx)" by (force simp: moved_def)
    then show "dx \<in> snd ` moved Q (dy, dx)" by force
  qed
  from r0 show "moved Q (dy, dx) \<noteq> {}" by (auto simp: moved_def)
qed


lemma unique_configs_loop_acc:
  "set acc \<subseteq> set (unique_configs_loop S frs seen acc)"
  by (induction S frs seen acc rule: unique_configs_loop.induct) (auto simp: Let_def)

lemma unique_configs_loop_covers:
  assumes "\<forall>d \<in> set seen. \<exists>cfg \<in> set acc. configured S cfg = d"
    and "(f, r) \<in> set frs"
  shows "\<exists>cfg \<in> set (unique_configs_loop S frs seen acc).
           configured S cfg = configured S \<lparr>flips = f, rotations = r, location = (0, 0)\<rparr>"
  using assms
proof (induction S frs seen acc rule: unique_configs_loop.induct)
  case (1 S dots_sets acc)
  then show ?case by simp
next
  case (2 S flip rotation rest dots_sets acc)
  let ?cfg = "\<lparr>flips = flip, rotations = rotation, location = (0, 0)\<rparr>"
  show ?case
  proof (cases "configured S ?cfg \<in> set dots_sets")
    case True
    note seen = True
    show ?thesis
    proof (cases "(f, r) = (flip, rotation)")
      case True
      from seen "2.prems"(1) obtain c where "c \<in> set acc" "configured S c = configured S ?cfg" by blast
      with unique_configs_loop_acc [of acc S rest dots_sets] True seen show ?thesis
        by (auto simp: Let_def)
    next
      case False
      with "2.prems" have "(f, r) \<in> set rest" by auto
      with "2.IH"(2) [OF refl refl _ "2.prems"(1)] seen show ?thesis by (simp add: Let_def)
    qed
  next
    case False
    note unseen = False
    have inv: "\<forall>d \<in> set (dots_sets @ [configured S ?cfg]). \<exists>c \<in> set (acc @ [?cfg]). configured S c = d"
      using "2.prems"(1) by auto
    show ?thesis
    proof (cases "(f, r) = (flip, rotation)")
      case True
      have "?cfg \<in> set (unique_configs_loop S rest (dots_sets @ [configured S ?cfg]) (acc @ [?cfg]))"
        using unique_configs_loop_acc [of "acc @ [?cfg]" S rest "dots_sets @ [configured S ?cfg]"] by auto
      with True unseen show ?thesis by (auto simp: Let_def)
    next
      case False
      with "2.prems" have "(f, r) \<in> set rest" by auto
      with "2.IH"(1) [OF refl refl _ inv] unseen show ?thesis by (simp add: Let_def)
    qed
  qed
qed


lemma configured_location:
  "configured S (cfg\<lparr>location := loc\<rparr>) =
     moved (rotated_clockwise S (initial_dots_flipped S (flips cfg)) (rotations cfg)) loc"
  by (simp add: configured_def)

lemma initial_dots_flipped_mod: "initial_dots_flipped S (f mod 2) = initial_dots_flipped S f"
  by (simp add: initial_dots_flipped_def)

lemma rotated_clockwise_mod: "rotated_clockwise S Q (r mod 4) = rotated_clockwise S Q r"
  by (simp add: rotated_clockwise_def)

lemma configured_mod:
  "configured S (c\<lparr>flips := flips c mod 2, rotations := rotations c mod 4\<rparr>) = configured S c"
  by (simp add: configured_def initial_dots_flipped_mod rotated_clockwise_mod)

lemma dots_set_set_config: "dots_set (set_config S c) = configured S c"
  by (simp add: set_config_def Let_def configured_mod)

lemma set_dots_error_iff:
  assumes "D \<noteq> {}"
  shows "(set_dots S D = Inl ValueError) =
     (\<not> (\<exists>cfg \<in> set (get_unique_configs_at S (Min (fst ` D), Min (snd ` D))). configured S cfg = D))"
proof (cases "find (\<lambda>cfg. configured S cfg = D) (get_unique_configs_at S (Min (fst ` D), Min (snd ` D)))")
  case None
  then have "set_dots S D = Inl ValueError" using assms by (simp add: set_dots_def)
  moreover from None have "\<not> (\<exists>cfg \<in> set (get_unique_configs_at S (Min (fst ` D), Min (snd ` D))). configured S cfg = D)"
    by (auto simp: find_None_iff)
  ultimately show ?thesis by simp
next
  case (Some cfg)
  then have "set_dots S D = Inr (set_config S cfg)" using assms by (simp add: set_dots_def)
  moreover from Some have "cfg \<in> set (get_unique_configs_at S (Min (fst ` D), Min (snd ` D))) \<and> configured S cfg = D"
    by (auto simp: find_Some_iff in_set_conv_nth)
  ultimately show ?thesis by auto
qed

lemma set_dots_success:
  assumes "D \<noteq> {}"
    and "\<exists>cfg \<in> set (get_unique_configs_at S (Min (fst ` D), Min (snd ` D))). configured S cfg = D"
  shows "\<exists>S'. set_dots S D = Inr S' \<and> dots_set S' = D"
proof (cases "find (\<lambda>cfg. configured S cfg = D) (get_unique_configs_at S (Min (fst ` D), Min (snd ` D)))")
  case None
  with assms(2) show ?thesis by (auto simp: find_None_iff)
next
  case (Some cfg)
  then have "set_dots S D = Inr (set_config S cfg)" using assms by (simp add: set_dots_def)
  moreover from Some have "configured S cfg = D"
    by (auto simp: find_Some_iff)
  ultimately show ?thesis by (simp add: dots_set_set_config)
qed

lemma fits_init:
  assumes "DotsSet_init dots ic col = Inr S"
    and "Min (fst ` set dots) = 0" and "Min (snd ` set dots) = 0"
  shows "fits S (initial_dots_set S)"
proof -
  from assms(1) have ne: "dots \<noteq> []" and S: "initial_dots_set S = set dots"
    "height S = Max (fst ` set dots) + 1" "width S = Max (snd ` set dots) + 1"
    by (auto simp: DotsSet_init_def reset_def set_config_def Let_def split: if_splits)
  have fin: "finite (fst ` set dots)" "finite (snd ` set dots)" by simp_all
  have ne': "fst ` set dots \<noteq> {}" "snd ` set dots \<noteq> {}" using ne by simp_all
  have "Min (fst ` set dots) \<in> fst ` set dots" "Max (fst ` set dots) \<in> fst ` set dots"
    "Min (snd ` set dots) \<in> snd ` set dots" "Max (snd ` set dots) \<in> snd ` set dots"
    by (rule Min_in [OF fin(1) ne'(1)], rule Max_in [OF fin(1) ne'(1)],
        rule Min_in [OF fin(2) ne'(2)], rule Max_in [OF fin(2) ne'(2)])
  then have ex: "\<exists>x. (0, x) \<in> set dots" "\<exists>x. (height S - 1, x) \<in> set dots"
    "\<exists>y. (y, 0) \<in> set dots" "\<exists>y. (y, width S - 1) \<in> set dots"
    using assms(2,3) S(2,3) by force+
  have bnd: "\<forall>(y, x) \<in> set dots. 0 \<le> y \<and> y \<le> height S - 1 \<and> 0 \<le> x \<and> x \<le> width S - 1"
  proof (clarify)
    fix y x assume "(y, x) \<in> set dots"
    then have "y \<in> fst ` set dots" "x \<in> snd ` set dots" by force+
    then have "Min (fst ` set dots) \<le> y" "y \<le> Max (fst ` set dots)"
      "Min (snd ` set dots) \<le> x" "x \<le> Max (snd ` set dots)"
      using fin by simp_all
    then show "0 \<le> y \<and> y \<le> height S - 1 \<and> 0 \<le> x \<and> x \<le> width S - 1"
      using assms(2,3) S(2,3) by simp
  qed
  show ?thesis unfolding fits_def S(1) using ex bnd by simp
qed

lemma fits_initial_dots_flipped:
  "fits S (initial_dots_set S) \<Longrightarrow> fits S (initial_dots_flipped S f)"
  by (simp add: initial_dots_flipped_def fits_flipped)

lemma in_flip_rotation_range: "(f mod 2, r mod 4) \<in> set flip_rotation_range"
proof -
  define a where "a = f mod 2"
  define b where "b = r mod 4"
  have "a = 0 \<or> a = 1" unfolding a_def by presburger
  moreover have "b = 0 \<or> b = 1 \<or> b = 2 \<or> b = 3" unfolding b_def by presburger
  ultimately have "(a, b) \<in> set flip_rotation_range"
    unfolding flip_rotation_range_def by auto
  then show ?thesis by (simp add: a_def b_def)
qed

lemma moved_zero: "moved Q (0, 0) = Q"
  by (simp add: moved_def case_prod_beta)

lemma unique_configs_loop_location:
  "\<forall>cfg \<in> set acc. location cfg = (0, 0) \<Longrightarrow>
   \<forall>cfg \<in> set (unique_configs_loop S frs seen acc). location cfg = (0, 0)"
  by (induction S frs seen acc rule: unique_configs_loop.induct) (auto simp: Let_def)

lemma unique_configs_location: "cfg \<in> set (unique_configs S) \<Longrightarrow> location cfg = (0, 0)"
  using unique_configs_loop_location [of "[]" S flip_rotation_range "[]"]
  by (simp add: unique_configs_def)

lemma unique_configs_reproduce:
  "\<exists>cfg \<in> set (get_unique_configs_at S loc). configured S cfg = configured S (c\<lparr>location := loc\<rparr>)"
proof -
  have "\<exists>cfg \<in> set (unique_configs S).
          configured S cfg = configured S \<lparr>flips = flips c mod 2, rotations = rotations c mod 4, location = (0, 0)\<rparr>"
    unfolding unique_configs_def
    by (rule unique_configs_loop_covers) (simp_all add: in_flip_rotation_range)
  then obtain cfg where c: "cfg \<in> set (unique_configs S)"
    and e: "configured S cfg = configured S \<lparr>flips = flips c mod 2, rotations = rotations c mod 4, location = (0, 0)\<rparr>"
    by blast
  have l: "location cfg = (0, 0)" by (rule unique_configs_location [OF c])
  from e have "rotated_clockwise S (initial_dots_flipped S (flips cfg)) (rotations cfg)
      = rotated_clockwise S (initial_dots_flipped S (flips c)) (rotations c)"
    by (simp add: configured_def l moved_zero initial_dots_flipped_mod rotated_clockwise_mod)
  then have "configured S (cfg\<lparr>location := loc\<rparr>) = configured S (c\<lparr>location := loc\<rparr>)"
    by (simp add: configured_location)
  with c show ?thesis by (auto simp: get_unique_configs_at_def)
qed

lemma set_dots_configured:
  assumes "DotsSet_init dots ic col = Inr S"
    and "Min (fst ` set dots) = 0" and "Min (snd ` set dots) = 0"
  shows "\<exists>S'. set_dots S (configured S c) = Inr S' \<and> dots_set S' = configured S c"
proof -
  obtain dy dx where loc: "location c = (dy, dx)" by (cases "location c")
  let ?Q = "rotated_clockwise S (initial_dots_flipped S (flips c)) (rotations c)"
  have "anchored ?Q"
    by (rule anchored_rotated, rule fits_initial_dots_flipped, rule fits_init [OF assms])
  from anchored_moved_Min [OF this, of dy dx]
  have m: "Min (fst ` configured S c) = dy" "Min (snd ` configured S c) = dx" "configured S c \<noteq> {}"
    by (simp_all add: configured_def loc)
  have "c\<lparr>location := (dy, dx)\<rparr> = c" using loc by simp
  with unique_configs_reproduce [of S "(dy, dx)" c]
  have "\<exists>cfg \<in> set (get_unique_configs_at S (dy, dx)). configured S cfg = configured S c" by simp
  with set_dots_success [OF m(3), of S] m(1,2) show ?thesis by simp
qed

text \<open>
  C6.  For a non-empty cell-set \<open>D\<close>, \<open>set_dots\<close> raises \<open>ValueError\<close> exactly when no
  unique config at \<open>D\<close>'s minimum row and minimum column reproduces \<open>D\<close>; when there is
  one the call succeeds and the current cells of the shape are \<open>D\<close>.  For a shape built
  by the constructor from a pattern whose minimum row and minimum column are 0,
  \<open>set_dots (configured c)\<close> succeeds for every placement \<open>c\<close>, and the current cells are
  \<open>configured c\<close>.
\<close>

theorem set_dots_spec:
  "(D \<noteq> {} \<longrightarrow>
      ((set_dots S D = Inl ValueError) =
         (\<not> (\<exists>cfg \<in> set (get_unique_configs_at S (Min (fst ` D), Min (snd ` D))).
               configured S cfg = D)))
      \<and> ((\<exists>cfg \<in> set (get_unique_configs_at S (Min (fst ` D), Min (snd ` D))).
               configured S cfg = D)
           \<longrightarrow> (\<exists>S'. set_dots S D = Inr S' \<and> dots_set S' = D)))
   \<and> (DotsSet_init dots ic col = Inr T \<and> Min (fst ` set dots) = 0 \<and> Min (snd ` set dots) = 0
        \<longrightarrow> (\<exists>T'. set_dots T (configured T c) = Inr T' \<and> dots_set T' = configured T c))"
  using set_dots_error_iff [of D S] set_dots_success [of D S] set_dots_configured [of dots ic col T c]
  by blast

theorem set_dots_spec_witness:
  "{(5, 5)} \<noteq> ({} :: dot set)
   \<and> DotsSet_init [(0, 0), (0, 1), (1, 0)] \<lparr>flips = 0, rotations = 0, location = (0, 0)\<rparr> ''red''
       = Inr (reset \<lparr>initial_dots_set = {(0, 0), (0, 1), (1, 0)}, dots_set = {(0, 0), (0, 1), (1, 0)},
                height = 2, width = 2, color = ''red'',
                config = \<lparr>flips = 0, rotations = 0, location = (0, 0)\<rparr>,
                initial_config = \<lparr>flips = 0, rotations = 0, location = (0, 0)\<rparr>\<rparr>)
   \<and> Min (fst ` set [(0 :: int, 0 :: int), (0, 1), (1, 0)]) = 0
   \<and> Min (snd ` set [(0 :: int, 0 :: int), (0, 1), (1, 0)]) = 0
   \<and> (\<forall>S. (set_dots S {(5, 5)} = Inl ValueError) =
         (\<not> (\<exists>cfg \<in> set (get_unique_configs_at S (5, 5)). configured S cfg = {(5, 5)})))
   \<and> (\<forall>c. \<exists>T'.
        set_dots (reset \<lparr>initial_dots_set = {(0, 0), (0, 1), (1, 0)}, dots_set = {(0, 0), (0, 1), (1, 0)},
                height = 2, width = 2, color = ''red'',
                config = \<lparr>flips = 0, rotations = 0, location = (0, 0)\<rparr>,
                initial_config = \<lparr>flips = 0, rotations = 0, location = (0, 0)\<rparr>\<rparr>)
          (configured (reset \<lparr>initial_dots_set = {(0, 0), (0, 1), (1, 0)}, dots_set = {(0, 0), (0, 1), (1, 0)},
                height = 2, width = 2, color = ''red'',
                config = \<lparr>flips = 0, rotations = 0, location = (0, 0)\<rparr>,
                initial_config = \<lparr>flips = 0, rotations = 0, location = (0, 0)\<rparr>\<rparr>) c) = Inr T'
        \<and> dots_set T' = configured (reset \<lparr>initial_dots_set = {(0, 0), (0, 1), (1, 0)}, dots_set = {(0, 0), (0, 1), (1, 0)},
                height = 2, width = 2, color = ''red'',
                config = \<lparr>flips = 0, rotations = 0, location = (0, 0)\<rparr>,
                initial_config = \<lparr>flips = 0, rotations = 0, location = (0, 0)\<rparr>\<rparr>) c)"
proof -
  let ?dots = "[(0 :: int, 0 :: int), (0, 1), (1, 0)]"
  let ?ic = "\<lparr>flips = 0, rotations = 0, location = (0, 0)\<rparr>"
  let ?T = "reset \<lparr>initial_dots_set = {(0, 0), (0, 1), (1, 0)}, dots_set = {(0, 0), (0, 1), (1, 0)},
                height = 2, width = 2, color = ''red'',
                config = \<lparr>flips = 0, rotations = 0, location = (0, 0)\<rparr>,
                initial_config = \<lparr>flips = 0, rotations = 0, location = (0, 0)\<rparr>\<rparr>"
  have h0: "{(5, 5)} \<noteq> ({} :: dot set)" by simp
  have h1: "DotsSet_init ?dots ?ic ''red'' = Inr ?T"
    by (simp add: DotsSet_init_def are_valid_dots_def)
  have h2: "Min (fst ` set ?dots) = 0" by simp
  have h3: "Min (snd ` set ?dots) = 0" by simp
  have a: "(set_dots S {(5, 5)} = Inl ValueError) =
         (\<not> (\<exists>cfg \<in> set (get_unique_configs_at S (5, 5)). configured S cfg = {(5, 5)}))" for S
    using set_dots_spec [of "{(5, 5)}" S ?dots ?ic "''red''" ?T] h0 by simp
  have b: "\<exists>T'. set_dots ?T (configured ?T c) = Inr T' \<and> dots_set T' = configured ?T c" for c
    using set_dots_spec [of "{(5, 5)}" ?T ?dots ?ic "''red''" ?T c] h1 h2 h3 by blast
  show ?thesis using h0 h1 h2 h3 a b by blast
qed

end
